theory Spec2Isabelle
  imports Main "HOL-Library.Sublist"
begin

section \<open>Python values of the integration\<close>

text \<open>
  The integration works on the values that \<^verbatim>\<open>response.json()\<close> returns: \<^verbatim>\<open>None\<close>, booleans,
  integers, strings, lists and dicts with string keys. A dict is the list of its items in
  insertion order; in a parsed value the keys of one dict are pairwise distinct and lookup
  reads the first item with the key. Strings are lists of 8-bit characters (code points
  below 256), among which the decimal digits are exactly \<^verbatim>\<open>0\<close> to \<^verbatim>\<open>9\<close>. Numbers with a
  fraction or an exponent are not part of the model.
\<close>

datatype json =
    JNull
  | JBool bool
  | JInt int
  | JStr string
  | JArr "json list"
  | JObj "(string \<times> json) list"

text \<open>
  The exceptions that the code can meet. All of them derive from \<^verbatim>\<open>Exception\<close>;
  \<^verbatim>\<open>ClientError\<close> is \<^verbatim>\<open>aiohttp.ClientError\<close> and \<^verbatim>\<open>UpdateFailed\<close> is the coordinator's
  refresh-failure signal, carried with the fixed part of its message.
\<close>

datatype exn =
    TimeoutError
  | ClientError
  | AttributeError
  | TypeError
  | KeyError
  | OtherException
  | UpdateFailed string

text \<open>Truth value of a Python object, as tested by \<^verbatim>\<open>if x:\<close>.\<close>

fun truthy :: "json \<Rightarrow> bool" where
  "truthy JNull = False"
| "truthy (JBool b) = b"
| "truthy (JInt i) = (i \<noteq> 0)"
| "truthy (JStr s) = (s \<noteq> [])"
| "truthy (JArr xs) = (xs \<noteq> [])"
| "truthy (JObj kvs) = (kvs \<noteq> [])"

text \<open>
  \<^verbatim>\<open>x.get(key, default)\<close>: only a dict has the method, every other value raises
  \<^verbatim>\<open>AttributeError\<close>. \<^verbatim>\<open>x.get(key)\<close> is \<open>py_get x key JNull\<close>.
\<close>

fun py_get :: "json \<Rightarrow> string \<Rightarrow> json \<Rightarrow> exn + json" where
  "py_get (JObj kvs) key dflt = Inr (case map_of kvs key of Some v \<Rightarrow> v | None \<Rightarrow> dflt)"
| "py_get _ key dflt = Inl AttributeError"

text \<open>Sequencing of computations that may raise.\<close>

fun bind_exn :: "exn + 'a \<Rightarrow> ('a \<Rightarrow> exn + 'b) \<Rightarrow> exn + 'b" where
  "bind_exn (Inl e) f = Inl e"
| "bind_exn (Inr v) f = f v"

subsection \<open>The snapshot\<close>

text \<open>
  \<^verbatim>\<open>coordinator.data\<close> is a dict from container names to records. Its keys are the
  hashable values that a \<^verbatim>\<open>name\<close> field can hold. Python compares keys with \<^verbatim>\<open>==\<close>, under
  which \<^verbatim>\<open>True\<close> is \<^verbatim>\<open>1\<close> and \<^verbatim>\<open>False\<close> is \<^verbatim>\<open>0\<close>.
\<close>

fun hashable :: "json \<Rightarrow> bool" where
  "hashable (JArr xs) = False"
| "hashable (JObj kvs) = False"
| "hashable _ = True"

fun key_eq :: "json \<Rightarrow> json \<Rightarrow> bool" where
  "key_eq (JBool b) (JInt i) = (i = (if b then 1 else 0))"
| "key_eq (JInt i) (JBool b) = (i = (if b then 1 else 0))"
| "key_eq a b = (a = b)"

type_synonym snapshot = "(json \<times> json) list"

text \<open>\<^verbatim>\<open>d.get(k)\<close> on the snapshot: the stored record, or \<^verbatim>\<open>None\<close>.\<close>

fun dict_get :: "snapshot \<Rightarrow> json \<Rightarrow> json" where
  "dict_get [] k = JNull"
| "dict_get ((k', v) # d) k = (if key_eq k' k then v else dict_get d k)"

text \<open>\<^verbatim>\<open>k in d\<close>.\<close>

fun dict_has :: "snapshot \<Rightarrow> json \<Rightarrow> bool" where
  "dict_has [] k = False"
| "dict_has ((k', v) # d) k = (key_eq k' k \<or> dict_has d k)"

text \<open>
  \<^verbatim>\<open>d[k] = v\<close>: an existing key keeps its place (and its first spelling) and takes the
  new value, a new key is added at the end.
\<close>

fun dict_set :: "snapshot \<Rightarrow> json \<Rightarrow> json \<Rightarrow> snapshot" where
  "dict_set [] k v = [(k, v)]"
| "dict_set ((k', v') # d) k v =
     (if key_eq k' k then (k', v) # d else (k', v') # dict_set d k v)"

section \<open>Entity projection (update.py)\<close>

text \<open>
  The chain \<^verbatim>\<open>container_data.get("image", {}).get("tag", {}).get("value")\<close>.
\<close>

definition image_tag_value :: "json \<Rightarrow> exn + json" where
  "image_tag_value container_data =
     bind_exn (py_get container_data ''image'' (JObj [])) (\<lambda>image.
     bind_exn (py_get image ''tag'' (JObj [])) (\<lambda>tag.
     py_get tag ''value'' JNull))"

text \<open>The chain \<^verbatim>\<open>container_data.get("result", {}).get(field)\<close>.\<close>

definition result_field :: "json \<Rightarrow> string \<Rightarrow> exn + json" where
  "result_field container_data field =
     bind_exn (py_get container_data ''result'' (JObj [])) (\<lambda>result.
     py_get result field JNull)"

definition installed_version :: "snapshot \<Rightarrow> json \<Rightarrow> exn + json" where
  "installed_version data container_name =
     (let container_data = dict_get data container_name in
      if truthy container_data then image_tag_value container_data
      else Inr JNull)"

definition latest_version :: "snapshot \<Rightarrow> json \<Rightarrow> exn + json" where
  "latest_version data container_name =
     (let container_data = dict_get data container_name in
      if truthy container_data then
        bind_exn (py_get container_data ''updateAvailable'' JNull) (\<lambda>update_available.
        if truthy update_available then result_field container_data ''tag''
        else image_tag_value container_data)
      else Inr JNull)"

subsection \<open>String operations used by \<^verbatim>\<open>release_url\<close>\<close>

definition is_digit :: "char \<Rightarrow> bool" where
  "is_digit c = (c \<in> set ''0123456789'')"

definition newline :: char where
  "newline = CHR 0x0A"

text \<open>
  \<^verbatim>\<open>re.search(r"\d+$", tag)\<close>. A match that starts at the head of \<open>s\<close> takes the longest
  run of digits (\<^verbatim>\<open>\d+\<close> is greedy, and a shorter run is followed by a digit, where \<^verbatim>\<open>$\<close>
  cannot hold); \<^verbatim>\<open>$\<close> then holds at the end of the string and also just before a newline
  that is the last character of the string. The search tries every start position from the
  left and returns the first match.
\<close>

definition match_here :: "string \<Rightarrow> string option" where
  "match_here s =
     (let run = takeWhile is_digit s; rest = dropWhile is_digit s in
      if run \<noteq> [] \<and> (rest = [] \<or> rest = [newline]) then Some run else None)"

fun search_digits :: "string \<Rightarrow> string option" where
  "search_digits [] = None"
| "search_digits (c # cs) =
     (case match_here (c # cs) of Some m \<Rightarrow> Some m | None \<Rightarrow> search_digits cs)"

text \<open>\<^verbatim>\<open>re.search\<close> accepts a string only: any other tag raises \<^verbatim>\<open>TypeError\<close>.\<close>

fun re_search :: "json \<Rightarrow> exn + string option" where
  "re_search (JStr s) = Inr (search_digits s)"
| "re_search _ = Inl TypeError"

text \<open>
  \<^verbatim>\<open>s.replace(old, new)\<close>: the occurrences of \<open>old\<close> are found from the left and do not
  overlap. \<open>replace_ne\<close> is the scan for a non-empty \<open>old\<close> (after a match it skips the
  \<open>length old - 1\<close> characters that follow the head); for an empty \<open>old\<close> Python puts \<open>new\<close>
  before every character and at the end.
\<close>

fun replace_ne :: "string \<Rightarrow> string \<Rightarrow> string \<Rightarrow> string" where
  "replace_ne [] old new = []"
| "replace_ne (c # cs) old new =
     (if prefix old (c # cs) then new @ replace_ne (drop (length old - 1) cs) old new
      else c # replace_ne cs old new)"

definition str_replace :: "string \<Rightarrow> string \<Rightarrow> string \<Rightarrow> string" where
  "str_replace s old new =
     (if old = [] then new @ concat (map (\<lambda>c. c # new) s) else replace_ne s old new)"

text \<open>
  Lines 131 to 150 of update.py, the two fixups of the chosen link. A link that is not a
  string is returned as it is when it is falsy, and has no \<^verbatim>\<open>endswith\<close> otherwise.
\<close>

fun fix_link :: "json \<Rightarrow> json \<Rightarrow> exn + json" where
  "fix_link (JStr link) tag =
     (if link \<noteq> [] \<and> suffix ''undefined'' link then
        bind_exn (re_search tag) (\<lambda>m.
          case m of
            Some digits \<Rightarrow> Inr (JStr (str_replace link ''undefined'' digits))
          | None \<Rightarrow> Inr (JStr link))
      else if link \<noteq> [] \<and> suffix ''.'' link then
        bind_exn (re_search tag) (\<lambda>m.
          case m of
            Some digits \<Rightarrow> Inr (JStr (link @ digits))
          | None \<Rightarrow> Inr (JStr link))
      else Inr (JStr link))"
| "fix_link link tag = (if truthy link then Inl AttributeError else Inr link)"

definition release_url :: "snapshot \<Rightarrow> json \<Rightarrow> exn + json" where
  "release_url data container_name =
     (let container_data = dict_get data container_name in
      if truthy container_data then
        bind_exn (py_get container_data ''updateAvailable'' JNull) (\<lambda>update_available.
        if truthy update_available then
          bind_exn (result_field container_data ''link'') (\<lambda>link.
          bind_exn (result_field container_data ''tag'') (\<lambda>tag.
          fix_link link tag))
        else
          bind_exn (py_get container_data ''link'' JNull) (\<lambda>link.
          bind_exn (image_tag_value container_data) (\<lambda>tag.
          fix_link link tag)))
      else Inr JNull)"

subsection \<open>Effects of the asynchronous operations\<close>

text \<open>
  The asynchronous methods log, issue HTTP requests and return or raise. An \<open>outcome\<close>
  holds the three: the log records in order (level and format string), the requests sent in
  order, and the value returned or the exception that reaches the caller. The HTTP session
  is a function from the request to what the request yields: an exception (a timeout, a
  transport error) or a response. A response has its status and the results of awaiting
  \<^verbatim>\<open>response.json()\<close> and \<^verbatim>\<open>response.text()\<close>. A \<open>Post\<close> holds the three parts that the code
  formats into the endpoint \<^verbatim>\<open>{url}/{container_id}/triggers/{trigger_url_path}\<close>; basic
  authentication is left out of the requests.
\<close>

datatype level = LDebug | LInfo | LError | LException

type_synonym log_entry = "level \<times> string"

datatype request =
    Get json "(string \<times> string) list"
  | Post string json json

record response =
  resp_status :: int
  resp_json :: "exn + json"
  resp_text :: "exn + string"

record 'a outcome =
  logged :: "log_entry list"
  requests :: "request list"
  result :: "exn + 'a"

type_synonym session = "request \<Rightarrow> exn + response"

text \<open>
  \<^verbatim>\<open>response.raise_for_status()\<close> of aiohttp raises \<^verbatim>\<open>ClientResponseError\<close>, a
  \<^verbatim>\<open>ClientError\<close>, when the status is 400 or more.
\<close>

definition raise_for_status :: "response \<Rightarrow> exn + unit" where
  "raise_for_status response = (if 400 \<le> resp_status response then Inl ClientError else Inr ())"

text \<open>\<^verbatim>\<open>x.replace(old, new)\<close> on any value: only a string has the method.\<close>

fun py_replace :: "json \<Rightarrow> string \<Rightarrow> string \<Rightarrow> exn + json" where
  "py_replace (JStr s) old new = Inr (JStr (str_replace s old new))"
| "py_replace _ old new = Inl AttributeError"

text \<open>
  \<^verbatim>\<open>sub in x\<close> for a string \<open>sub\<close>: substring test on a string, membership in a list, key
  test on a dict, \<^verbatim>\<open>TypeError\<close> on a value that cannot be iterated.
\<close>

fun py_in :: "string \<Rightarrow> json \<Rightarrow> exn + bool" where
  "py_in sub (JStr s) = Inr (sublist sub s)"
| "py_in sub (JArr xs) = Inr (JStr sub \<in> set xs)"
| "py_in sub (JObj kvs) = Inr (sub \<in> fst ` set kvs)"
| "py_in sub _ = Inl TypeError"

subsection \<open>Release notes\<close>

text \<open>
  Lines 162 to 174 of update.py: the GitHub API URL for a release URL, \<open>None\<close> when the
  format is not supported.
\<close>

definition api_url_of :: "json \<Rightarrow> exn + json option" where
  "api_url_of url =
     bind_exn (py_in ''/releases/tag/'' url) (\<lambda>is_tag.
     bind_exn (if is_tag then Inr True else py_in ''/tags/'' url) (\<lambda>tag_specific.
     if tag_specific then
       bind_exn (py_replace url ''https://github.com/'' ''https://api.github.com/repos/'')
         (\<lambda>api_url.
       bind_exn (py_in ''/releases/tag/'' api_url) (\<lambda>again.
       if again then
         bind_exn (py_replace api_url ''/releases/tag/'' ''/releases/tags/'') (\<lambda>u. Inr (Some u))
       else Inr (Some api_url)))
     else
       bind_exn (py_in ''/releases/latest'' url) (\<lambda>latest.
       if latest then
         bind_exn (py_replace url ''https://github.com/'' ''https://api.github.com/repos/'')
           (\<lambda>u. Inr (Some u))
       else Inr None)))"

definition notes_headers :: "(string \<times> string) list" where
  "notes_headers = [(''Accept'', ''application/vnd.github.v3+json'')]"

text \<open>The three \<^verbatim>\<open>except\<close> clauses of the fetch: each logs and returns \<^verbatim>\<open>None\<close>.\<close>

definition notes_failed :: "json \<Rightarrow> exn \<Rightarrow> json outcome" where
  "notes_failed api_url e =
     \<lparr>logged =
        [case e of
           TimeoutError \<Rightarrow> (LError, ''Timeout fetching release notes from GitHub'')
         | ClientError \<Rightarrow> (LError, ''Error fetching release notes from GitHub API: %s'')
         | _ \<Rightarrow> (LException, ''Unexpected error'')],
      requests = [Get api_url notes_headers],
      result = Inr JNull\<rparr>"

text \<open>The \<^verbatim>\<open>try\<close> block, lines 182 to 201.\<close>

definition fetch_notes :: "session \<Rightarrow> json \<Rightarrow> json outcome" where
  "fetch_notes get api_url =
     (case get (Get api_url notes_headers) of
        Inl e \<Rightarrow> notes_failed api_url e
      | Inr response \<Rightarrow>
          if resp_status response = 403 then
            \<lparr>logged = [(LError, ''GitHub API rate limit exceeded'')],
             requests = [Get api_url notes_headers],
             result = Inr JNull\<rparr>
          else
            (case bind_exn (raise_for_status response) (\<lambda>_.
                  bind_exn (resp_json response) (\<lambda>data.
                  py_get data ''body'' JNull)) of
               Inl e \<Rightarrow> notes_failed api_url e
             | Inr notes \<Rightarrow>
                 \<lparr>logged = [], requests = [Get api_url notes_headers], result = Inr notes\<rparr>))"

definition raised :: "exn \<Rightarrow> 'a outcome" where
  "raised e = \<lparr>logged = [], requests = [], result = Inl e\<rparr>"

definition async_release_notes :: "session \<Rightarrow> snapshot \<Rightarrow> json \<Rightarrow> json outcome" where
  "async_release_notes get data container_name =
     (let container_data = dict_get data container_name in
      if \<not> truthy container_data then \<lparr>logged = [], requests = [], result = Inr JNull\<rparr>
      else
        (case release_url data container_name of
           Inl e \<Rightarrow> raised e
         | Inr url \<Rightarrow>
             (case (if truthy url then py_in ''github.com'' url else Inr False) of
                Inl e \<Rightarrow> raised e
              | Inr False \<Rightarrow>
                  \<lparr>logged = [(LDebug, ''No GitHub URL found or not applicable: %s'')],
                   requests = [], result = Inr JNull\<rparr>
              | Inr True \<Rightarrow>
                  (case api_url_of url of
                     Inl e \<Rightarrow> raised e
                   | Inr None \<Rightarrow>
                       \<lparr>logged = [(LError, ''Unsupported GitHub URL format: %s'')],
                        requests = [], result = Inr JNull\<rparr>
                   | Inr (Some api_url) \<Rightarrow> fetch_notes get api_url))))"

subsection \<open>Install\<close>

text \<open>The \<^verbatim>\<open>try\<close> block of \<^verbatim>\<open>async_install\<close>, lines 237 to 262: nothing leaves it.\<close>

definition send_trigger :: "session \<Rightarrow> request \<Rightarrow> log_entry list \<Rightarrow> unit outcome" where
  "send_trigger post trigger_endpoint before =
     \<lparr>logged = before @
        [(LDebug, ''Sending update request to WUD trigger endpoint: %s''),
         (case bind_exn (post trigger_endpoint) (\<lambda>response.
               bind_exn (resp_text response) (\<lambda>response_text.
               Inr (resp_status response))) of
            Inr st \<Rightarrow>
              if st = 200 then
                (LInfo, ''Update for container %s has been triggered successfully'')
              else (LError, ''Failed to trigger update for container %s: %s'')
          | Inl ClientError \<Rightarrow> (LError, ''Error communicating with WUD API: %s'')
          | Inl _ \<Rightarrow> (LException, ''Unexpected error during update''))],
      requests = [trigger_endpoint],
      result = Inr ()\<rparr>"

definition async_install :: "session \<Rightarrow> string \<Rightarrow> snapshot \<Rightarrow> json \<Rightarrow> unit outcome" where
  "async_install post url data container_name =
     (let start = (LInfo, ''Starting update for container %s'');
          container_data = dict_get data container_name in
      if \<not> truthy container_data then
        \<lparr>logged = [start, (LError, ''Container data not found for %s'')],
         requests = [], result = Inr ()\<rparr>
      else
        (case bind_exn (py_get container_data ''labels'' (JObj [])) (\<lambda>labels.
              py_get labels ''wud.trigger.hass'' (JObj [])) of
           Inl e \<Rightarrow> \<lparr>logged = [start], requests = [], result = Inl e\<rparr>
         | Inr trigger_name \<Rightarrow>
             if \<not> truthy trigger_name then
               \<lparr>logged = [start, (LError, ''HASS Trigger Label not found for %s'')],
                requests = [], result = Inr ()\<rparr>
             else
               (case bind_exn (py_replace trigger_name ''.'' ''/'') (\<lambda>trigger_url_path.
                     bind_exn (py_get container_data ''id'' JNull) (\<lambda>container_id.
                     Inr (trigger_url_path, container_id))) of
                  Inl e \<Rightarrow> \<lparr>logged = [start], requests = [], result = Inl e\<rparr>
                | Inr (trigger_url_path, container_id) \<Rightarrow>
                    if \<not> truthy container_id then
                      \<lparr>logged = [start, (LError, ''No container id for %s'')],
                       requests = [], result = Inr ()\<rparr>
                    else send_trigger post (Post url container_id trigger_url_path) [start])))"

section \<open>Refresh coordinator (coordinator.py)\<close>

text \<open>\<^verbatim>\<open>_async_fetch_data\<close>: one GET, \<^verbatim>\<open>raise_for_status\<close>, then the parsed body.\<close>

definition async_fetch_data :: "session \<Rightarrow> string \<Rightarrow> exn + json" where
  "async_fetch_data get url =
     bind_exn (get (Get (JStr url) [])) (\<lambda>response.
     bind_exn (raise_for_status response) (\<lambda>_.
     resp_json response))"

text \<open>
  What \<^verbatim>\<open>for container in data\<close> iterates over: the elements of a list, the keys of a
  dict, the characters of a string; the other values are not iterable.
\<close>

fun py_iter :: "json \<Rightarrow> exn + json list" where
  "py_iter (JArr xs) = Inr xs"
| "py_iter (JObj kvs) = Inr (map (\<lambda>kv. JStr (fst kv)) kvs)"
| "py_iter (JStr s) = Inr (map (\<lambda>c. JStr [c]) s)"
| "py_iter _ = Inl TypeError"

text \<open>
  \<^verbatim>\<open>container["name"]\<close>: \<^verbatim>\<open>KeyError\<close> on a dict without the key, \<^verbatim>\<open>TypeError\<close> on every
  value that is not a dict.
\<close>

fun py_subscript :: "json \<Rightarrow> string \<Rightarrow> exn + json" where
  "py_subscript (JObj kvs) key =
     (case map_of kvs key of Some v \<Rightarrow> Inr v | None \<Rightarrow> Inl KeyError)"
| "py_subscript _ key = Inl TypeError"

text \<open>
  The dict comprehension \<^verbatim>\<open>{container["name"]: container for container in data}\<close>, as the
  loop that fills the dict; a name that is a list or a dict is not hashable.
\<close>

fun build_dict :: "json list \<Rightarrow> snapshot \<Rightarrow> exn + snapshot" where
  "build_dict [] acc = Inr acc"
| "build_dict (container # rest) acc =
     bind_exn (py_subscript container ''name'') (\<lambda>name.
     if hashable name then build_dict rest (dict_set acc name container)
     else Inl TypeError)"

definition async_update_data :: "session \<Rightarrow> string \<Rightarrow> snapshot outcome" where
  "async_update_data get url =
     (case bind_exn (async_fetch_data get url) (\<lambda>data.
           bind_exn (py_iter data) (\<lambda>containers.
           build_dict containers [])) of
        Inr d \<Rightarrow> \<lparr>logged = [], requests = [Get (JStr url) []], result = Inr d\<rparr>
      | Inl TimeoutError \<Rightarrow>
          \<lparr>logged = [(LError, ''Timeout fetching data from WUD: %s'')],
           requests = [Get (JStr url) []],
           result = Inl (UpdateFailed ''Timeout fetching data from WUD'')\<rparr>
      | Inl ClientError \<Rightarrow>
          \<lparr>logged = [(LError, ''Client error fetching data from WUD: %s'')],
           requests = [Get (JStr url) []],
           result = Inl (UpdateFailed ''Client error fetching data from WUD'')\<rparr>
      | Inl _ \<Rightarrow>
          \<lparr>logged = [(LError, ''Unexpected error fetching data from WUD: %s'')],
           requests = [Get (JStr url) []],
           result = Inl (UpdateFailed ''Unexpected error fetching data from WUD'')\<rparr>)"

text \<open>
  The coordinator's state that the entities read: the snapshot and the success flag.
\<close>

record coordinator =
  data :: snapshot
  last_update_success :: bool

text \<open>
  Modelled from the spec: the refresh step of the host platform's
  \<^verbatim>\<open>DataUpdateCoordinator\<close>, the base class of \<^verbatim>\<open>WUDDataUpdateCoordinator\<close>, which is not
  part of the repository. It runs \<^verbatim>\<open>_async_update_data\<close>; on success the returned mapping
  replaces the snapshot and the flag is set; on the refresh-failure signal the previous
  snapshot is retained and the failure is recorded in the flag. What the platform does with
  another exception is not described, so it is passed on here.
\<close>

definition refresh :: "session \<Rightarrow> string \<Rightarrow> coordinator \<Rightarrow> exn + coordinator" where
  "refresh get url c =
     (case result (async_update_data get url) of
        Inr d \<Rightarrow> Inr \<lparr>data = d, last_update_success = True\<rparr>
      | Inl (UpdateFailed msg) \<Rightarrow> Inr (c\<lparr>last_update_success := False\<rparr>)
      | Inl e \<Rightarrow> Inl e)"

text \<open>\<^verbatim>\<open>WUDUpdateEntity.available\<close>, lines 264 to 267 of update.py.\<close>

definition available :: "coordinator \<Rightarrow> bool" where
  "available c = last_update_success c"

section \<open>Notions of the specification\<close>

text \<open>The value of \<^verbatim>\<open>updateAvailable\<close> in a record, \<^verbatim>\<open>None\<close> when the field is missing.\<close>

definition update_available :: "(string \<times> json) list \<Rightarrow> json" where
  "update_available r = (case map_of r ''updateAvailable'' of Some v \<Rightarrow> v | None \<Rightarrow> JNull)"

text \<open>The trailing run of decimal digits of a string.\<close>

definition tail_digits :: "string \<Rightarrow> string" where
  "tail_digits s = rev (takeWhile is_digit (rev s))"

text \<open>A string without its last character when that is a newline.\<close>

definition chomp :: "string \<Rightarrow> string" where
  "chomp s = (if s \<noteq> [] \<and> last s = newline then butlast s else s)"

text \<open>
  The link and the tag that \<^verbatim>\<open>release_url\<close> chooses in a record: those of \<^verbatim>\<open>result\<close> when
  \<^verbatim>\<open>updateAvailable\<close> is true, the record's link and the installed tag otherwise.
\<close>

definition chosen_link :: "(string \<times> json) list \<Rightarrow> exn + json" where
  "chosen_link r =
     (if truthy (update_available r) then result_field (JObj r) ''link''
      else py_get (JObj r) ''link'' JNull)"

definition chosen_tag :: "(string \<times> json) list \<Rightarrow> exn + json" where
  "chosen_tag r =
     (if truthy (update_available r) then result_field (JObj r) ''tag''
      else image_tag_value (JObj r))"

text \<open>A snapshot with an update pending for one container and none for the other.\<close>

definition web_record :: "(string \<times> json) list" where
  "web_record =
     [(''name'', JStr ''web''), (''updateAvailable'', JBool True),
      (''image'', JObj [(''tag'', JObj [(''value'', JStr ''1.2'')])]),
      (''result'', JObj [(''tag'', JStr ''1.3''),
                         (''link'', JStr ''https://github.com/o/r/releases/tag/1.3'')])]"

definition db_record :: "(string \<times> json) list" where
  "db_record =
     [(''name'', JStr ''db''), (''updateAvailable'', JBool False),
      (''image'', JObj [(''tag'', JObj [(''value'', JStr ''16.1'')])]),
      (''link'', JStr ''https://example.org/db'')]"

definition example_snapshot :: snapshot where
  "example_snapshot = [(JStr ''web'', JObj web_record), (JStr ''db'', JObj db_record)]"

text \<open>
  Records with malformed release links: one that ends with \<^verbatim>\<open>undefined\<close>, one that ends with
  a dot, and one whose tag ends with a newline.
\<close>

definition pre_record :: "(string \<times> json) list" where
  "pre_record =
     [(''name'', JStr ''web''), (''updateAvailable'', JBool True),
      (''image'', JObj [(''tag'', JObj [(''value'', JStr ''v1.2.2'')])]),
      (''result'', JObj [(''tag'', JStr ''v1.2.3''),
                         (''link'', JStr ''https://h/releases/download/v1.2.undefined'')])]"

definition dot_record :: "(string \<times> json) list" where
  "dot_record =
     [(''name'', JStr ''web''), (''updateAvailable'', JBool False),
      (''image'', JObj [(''tag'', JObj [(''value'', JStr ''v2.0.5'')])]),
      (''link'', JStr ''https://h/releases/tag/v2.0.'')]"

definition nl_record :: "(string \<times> json) list" where
  "nl_record =
     [(''name'', JStr ''web''), (''updateAvailable'', JBool True),
      (''result'', JObj [(''tag'', JStr (''v1.2.3'' @ [newline])),
                         (''link'', JStr ''https://h/v1.2.undefined'')])]"

text \<open>
  A record with an update pending whose result has no tag, and one whose link holds
  \<^verbatim>\<open>undefined\<close> twice.
\<close>

definition no_tag_record :: "(string \<times> json) list" where
  "no_tag_record =
     [(''name'', JStr ''web''), (''updateAvailable'', JBool True),
      (''result'', JObj [(''link'', JStr ''https://h/v1.2.undefined'')])]"

definition twice_record :: "(string \<times> json) list" where
  "twice_record =
     [(''name'', JStr ''web''), (''updateAvailable'', JBool True),
      (''result'', JObj [(''tag'', JStr ''v1.7''),
                         (''link'', JStr ''https://undefined.io/v1.undefined'')])]"

text \<open>
  A session that answers every request with the given status and a body that holds release
  notes, and the API URL for the release link of \<^verbatim>\<open>web\<close> in \<open>example_snapshot\<close>.
\<close>

definition answer :: "int \<Rightarrow> session" where
  "answer st = (\<lambda>rq. Inr \<lparr>resp_status = st, resp_json = Inr (JObj [(''body'', JStr ''notes'')]),
                          resp_text = Inr ''''\<rparr>)"

definition web_api_url :: json where
  "web_api_url = JStr ''https://api.github.com/repos/o/r/releases/tags/1.3''"

text \<open>
  What \<^verbatim>\<open>async_install\<close> reads in a record: the \<^verbatim>\<open>labels\<close> field, an empty dict when the
  field is missing, and in it the trigger label, an empty dict when the label is missing.
\<close>

definition record_labels :: "(string \<times> json) list \<Rightarrow> json" where
  "record_labels r = (case map_of r ''labels'' of Some v \<Rightarrow> v | None \<Rightarrow> JObj [])"

definition trigger_label :: "(string \<times> json) list \<Rightarrow> json" where
  "trigger_label ls = (case map_of ls ''wud.trigger.hass'' of Some v \<Rightarrow> v | None \<Rightarrow> JObj [])"

text \<open>A record whose \<^verbatim>\<open>labels\<close> field is \<^verbatim>\<open>null\<close>.\<close>

definition null_labels_record :: "(string \<times> json) list" where
  "null_labels_record = [(''name'', JStr ''web''), (''labels'', JNull)]"

text \<open>The URL of the WUD server, and a session in which every request raises.\<close>

definition wud_url :: string where
  "wud_url = ''http://wud:3000/api/containers''"

definition failing :: "exn \<Rightarrow> session" where
  "failing e = (\<lambda>rq. Inl e)"

text \<open>No two entries of a snapshot have equal keys.\<close>

fun keys_distinct :: "snapshot \<Rightarrow> bool" where
  "keys_distinct [] = True"
| "keys_distinct ((k, v) # d) = (\<not> dict_has d k \<and> keys_distinct d)"

text \<open>
  The \<^verbatim>\<open>name\<close> of a container record; a valid record is a dict with a hashable name; a
  record is named \<open>k\<close> when its name equals \<open>k\<close> as a dict key.
\<close>

definition record_name :: "json \<Rightarrow> json option" where
  "record_name c = (case c of JObj kvs \<Rightarrow> map_of kvs ''name'' | _ \<Rightarrow> None)"

definition valid_record :: "json \<Rightarrow> bool" where
  "valid_record c = (case record_name c of Some n \<Rightarrow> hashable n | None \<Rightarrow> False)"

definition named :: "json \<Rightarrow> json \<Rightarrow> bool" where
  "named c k = (case record_name c of Some n \<Rightarrow> key_eq n k | None \<Rightarrow> False)"

text \<open>The last record of the array that is named \<open>k\<close>.\<close>

fun last_named :: "json list \<Rightarrow> json \<Rightarrow> json option" where
  "last_named [] k = None"
| "last_named (c # cs) k =
     (case last_named cs k of
        Some c' \<Rightarrow> Some c'
      | None \<Rightarrow> if named c k then Some c else None)"

text \<open>
  An earlier record for \<^verbatim>\<open>web\<close>, and a session that answers with a given array of
  containers.
\<close>

definition old_web_record :: "(string \<times> json) list" where
  "old_web_record = [(''name'', JStr ''web''), (''updateAvailable'', JBool False)]"

definition containers_answer :: "json list \<Rightarrow> session" where
  "containers_answer cs =
     (\<lambda>rq. Inr \<lparr>resp_status = 200, resp_json = Inr (JArr cs), resp_text = Inr ''''\<rparr>)"

section \<open>Properties of the version fields\<close>

lemma dict_get_absent: "\<not> dict_has d k \<Longrightarrow> dict_get d k = JNull"
  by (induction d) auto

text \<open>
  Claim C3. For a record \<open>JObj r\<close> stored under the entity's name, \<^verbatim>\<open>latest_version\<close> is
  \<^verbatim>\<open>record.result.tag\<close> if \<^verbatim>\<open>updateAvailable\<close> is true: the chain \<open>result_field\<close>, which is the
  \<^verbatim>\<open>tag\<close> entry of the \<^verbatim>\<open>result\<close> object when there is one. If \<^verbatim>\<open>updateAvailable\<close> is false or
  missing, it is \<^verbatim>\<open>installed_version\<close>, which is \<^verbatim>\<open>record.image.tag.value\<close>: the \<^verbatim>\<open>value\<close>
  entry of the \<^verbatim>\<open>tag\<close> object of the \<^verbatim>\<open>image\<close> object. When the name is not a key of the
  snapshot, \<^verbatim>\<open>latest_version\<close> is \<^verbatim>\<open>None\<close>.
\<close>

theorem latest_version_spec:
  "(dict_get d k = JObj r \<and> truthy (update_available r) \<longrightarrow>
      latest_version d k = result_field (JObj r) ''tag'' \<and>
      (\<forall>res. map_of r ''result'' = Some (JObj res) \<longrightarrow>
         latest_version d k = Inr (case map_of res ''tag'' of Some t \<Rightarrow> t | None \<Rightarrow> JNull)))
   \<and> (dict_get d k = JObj r \<and> \<not> truthy (update_available r) \<longrightarrow>
      latest_version d k = installed_version d k \<and>
      (\<forall>image tag. map_of r ''image'' = Some (JObj image) \<and> map_of image ''tag'' = Some (JObj tag) \<longrightarrow>
         installed_version d k = Inr (case map_of tag ''value'' of Some v \<Rightarrow> v | None \<Rightarrow> JNull) \<and>
         latest_version d k = Inr (case map_of tag ''value'' of Some v \<Rightarrow> v | None \<Rightarrow> JNull)))
   \<and> (\<not> dict_has d k \<longrightarrow> latest_version d k = Inr JNull)"
proof (intro conjI impI allI)
  assume a: "dict_get d k = JObj r \<and> truthy (update_available r)"
  then show "latest_version d k = result_field (JObj r) ''tag''"
    by (cases r) (auto simp: latest_version_def update_available_def split: option.splits)
  fix res
  assume "map_of r ''result'' = Some (JObj res)"
  with a show "latest_version d k = Inr (case map_of res ''tag'' of Some t \<Rightarrow> t | None \<Rightarrow> JNull)"
    by (cases r)
       (auto simp: latest_version_def update_available_def result_field_def split: option.splits)
next
  assume a: "dict_get d k = JObj r \<and> \<not> truthy (update_available r)"
  then show "latest_version d k = installed_version d k"
    by (cases r)
       (auto simp: latest_version_def installed_version_def update_available_def
          split: option.splits)
  fix image tag
  assume b: "map_of r ''image'' = Some (JObj image) \<and> map_of image ''tag'' = Some (JObj tag)"
  then have ne: "r \<noteq> []" by auto
  from b have v: "image_tag_value (JObj r) =
      Inr (case map_of tag ''value'' of Some v \<Rightarrow> v | None \<Rightarrow> JNull)"
    by (simp add: image_tag_value_def)
  from a ne v show "installed_version d k =
      Inr (case map_of tag ''value'' of Some v \<Rightarrow> v | None \<Rightarrow> JNull)"
    by (simp add: installed_version_def)
  from a ne v show "latest_version d k =
      Inr (case map_of tag ''value'' of Some v \<Rightarrow> v | None \<Rightarrow> JNull)"
    by (auto simp: latest_version_def update_available_def split: option.splits)
next
  assume "\<not> dict_has d k"
  then show "latest_version d k = Inr JNull"
    by (simp add: latest_version_def dict_get_absent)
qed

text \<open>
  The three cases on \<open>example_snapshot\<close>: \<^verbatim>\<open>web\<close> has an update to 1.3, \<^verbatim>\<open>db\<close> has none and
  runs 16.1, and \<^verbatim>\<open>gone\<close> is not a key.
\<close>

theorem latest_version_spec_witness:
  "dict_get example_snapshot (JStr ''web'') = JObj web_record
   \<and> truthy (update_available web_record)
   \<and> map_of web_record ''result'' =
       Some (JObj [(''tag'', JStr ''1.3''),
                   (''link'', JStr ''https://github.com/o/r/releases/tag/1.3'')])
   \<and> latest_version example_snapshot (JStr ''web'') = Inr (JStr ''1.3'')
   \<and> dict_get example_snapshot (JStr ''db'') = JObj db_record
   \<and> \<not> truthy (update_available db_record)
   \<and> map_of db_record ''image'' = Some (JObj [(''tag'', JObj [(''value'', JStr ''16.1'')])])
   \<and> map_of [(''tag'', JObj [(''value'', JStr ''16.1'')])] ''tag'' =
       Some (JObj [(''value'', JStr ''16.1'')])
   \<and> installed_version example_snapshot (JStr ''db'') = Inr (JStr ''16.1'')
   \<and> latest_version example_snapshot (JStr ''db'') = Inr (JStr ''16.1'')
   \<and> \<not> dict_has example_snapshot (JStr ''gone'')
   \<and> latest_version example_snapshot (JStr ''gone'') = Inr JNull"
proof -
  have w: "dict_get example_snapshot (JStr ''web'') = JObj web_record
      \<and> truthy (update_available web_record)"
    and wr: "map_of web_record ''result'' =
       Some (JObj [(''tag'', JStr ''1.3''),
                   (''link'', JStr ''https://github.com/o/r/releases/tag/1.3'')])"
    by (simp_all add: example_snapshot_def web_record_def update_available_def)
  have b: "dict_get example_snapshot (JStr ''db'') = JObj db_record
      \<and> \<not> truthy (update_available db_record)"
    and bi: "map_of db_record ''image'' = Some (JObj [(''tag'', JObj [(''value'', JStr ''16.1'')])])
      \<and> map_of [(''tag'', JObj [(''value'', JStr ''16.1'')])] ''tag'' =
          Some (JObj [(''value'', JStr ''16.1'')])"
    by (simp_all add: example_snapshot_def db_record_def update_available_def)
  have g: "\<not> dict_has example_snapshot (JStr ''gone'')"
    by (simp add: example_snapshot_def)
  note t1 = latest_version_spec [of example_snapshot "JStr ''web''" web_record]
  note t2 = latest_version_spec [of example_snapshot "JStr ''db''" db_record]
  note t3 = latest_version_spec [of example_snapshot "JStr ''gone''" "[]"]
  from t1 w wr have l1: "latest_version example_snapshot (JStr ''web'') = Inr (JStr ''1.3'')"
    by (simp add: result_field_def web_record_def)
  from t2 b bi have l2: "installed_version example_snapshot (JStr ''db'') = Inr (JStr ''16.1'')
      \<and> latest_version example_snapshot (JStr ''db'') = Inr (JStr ''16.1'')"
    by simp
  from t3 g have l3: "latest_version example_snapshot (JStr ''gone'') = Inr JNull"
    by simp
  from w wr b bi g l1 l2 l3 show ?thesis by simp
qed

section \<open>Properties of the release URL\<close>

subsection \<open>The digit search\<close>

lemma newline_not_digit: "\<not> is_digit newline"
  by (simp add: is_digit_def newline_def)

lemma takeWhile_rev_all: "\<forall>c\<in>set s. P c \<Longrightarrow> takeWhile P (rev s) = rev s"
  by simp

lemma tail_digits_all: "\<forall>c\<in>set s. is_digit c \<Longrightarrow> tail_digits s = s"
  by (simp add: tail_digits_def takeWhile_rev_all)

lemma tail_digits_Cons_nondigit: "\<not> is_digit c \<Longrightarrow> tail_digits (c # s) = tail_digits s"
  by (simp add: tail_digits_def takeWhile_append takeWhile_rev_all)

lemma tail_digits_app_nondigit: "\<not> is_digit x \<Longrightarrow> tail_digits (a @ x # b) = tail_digits (x # b)"
  by (simp add: tail_digits_def takeWhile_append)

lemma chomp_append: "b \<noteq> [] \<Longrightarrow> chomp (a @ b) = a @ chomp b"
  by (simp add: chomp_def butlast_append)

lemma chomp_Cons: "chomp (x # b) = (if b = [] then (if x = newline then [] else [x]) else x # chomp b)"
  by (simp add: chomp_def)

lemma tail_digits_is_digit: "c \<in> set (tail_digits s) \<Longrightarrow> is_digit c"
  by (auto simp: tail_digits_def dest: set_takeWhileD)

lemma search_digits_tail:
  "search_digits s = (if tail_digits (chomp s) = [] then None else Some (tail_digits (chomp s)))"
proof (induction s)
  case Nil
  show ?case by (simp add: tail_digits_def chomp_def)
next
  case (Cons c cs)
  define run where "run = takeWhile is_digit (c # cs)"
  define rest where "rest = dropWhile is_digit (c # cs)"
  have split: "c # cs = run @ rest" by (simp add: run_def rest_def)
  have run_digits: "\<forall>x\<in>set run. is_digit x"
    by (auto simp: run_def dest: set_takeWhileD)
  show ?case
  proof (cases "run \<noteq> [] \<and> (rest = [] \<or> rest = [newline])")
    case True
    then have m: "match_here (c # cs) = Some run"
      by (simp add: match_here_def run_def rest_def Let_def)
    have "chomp (c # cs) = run"
    proof (cases "rest = []")
      case True
      with split have "c # cs = run" by simp
      moreover have "last run \<noteq> newline"
        using \<open>run \<noteq> [] \<and> _\<close> run_digits newline_not_digit last_in_set by metis
      ultimately show ?thesis using \<open>run \<noteq> [] \<and> _\<close> by (simp add: chomp_def)
    next
      case False
      with True have "rest = [newline]" by simp
      with split show ?thesis by (simp add: chomp_def)
    qed
    then show ?thesis using m True run_digits by (simp add: tail_digits_all)
  next
    case False
    then have m: "match_here (c # cs) = None"
      by (simp add: match_here_def run_def rest_def Let_def)
    have "tail_digits (chomp (c # cs)) = tail_digits (chomp cs)"
    proof (cases "is_digit c")
      case nd: False
      show ?thesis
      proof (cases "cs = []")
        case True
        then show ?thesis using nd by (simp add: chomp_def tail_digits_def)
      next
        case False
        then show ?thesis using nd by (simp add: chomp_Cons tail_digits_Cons_nondigit)
      qed
    next
      case dg: True
      then have "run \<noteq> []" by (simp add: run_def)
      with False have r1: "rest \<noteq> []" and r2: "rest \<noteq> [newline]" by auto
      from r1 obtain x rest' where rest: "rest = x # rest'" by (cases rest) auto
      have xnd: "\<not> is_digit x"
        using hd_dropWhile [of is_digit "c # cs"] r1 rest by (simp add: rest_def)
      from dg have "run = c # takeWhile is_digit cs" by (simp add: run_def)
      with split have cs: "cs = takeWhile is_digit cs @ rest" by simp
      have "\<exists>y. chomp rest = x # y"
        using rest r2 by (cases "rest' = []") (simp_all add: chomp_Cons)
      then obtain y where y: "chomp rest = x # y" ..
      have "chomp (c # cs) = run @ x # y"
        using split chomp_append [OF r1, of run] y by simp
      moreover have "chomp cs = takeWhile is_digit cs @ x # y"
        using cs chomp_append [OF r1, of "takeWhile is_digit cs"] y by simp
      ultimately show ?thesis using xnd by (simp add: tail_digits_app_nondigit)
    qed
    then show ?thesis using m Cons.IH by simp
  qed
qed

lemma search_digits_Some:
  "search_digits t = Some ds \<Longrightarrow> ds \<noteq> [] \<and> (\<forall>c\<in>set ds. is_digit c)"
  by (auto simp: search_digits_tail tail_digits_is_digit split: if_splits)

lemma tail_digits_chomp: "tail_digits t \<noteq> [] \<Longrightarrow> chomp t = t"
proof -
  assume a: "tail_digits t \<noteq> []"
  then have "t \<noteq> []" by (auto simp: tail_digits_def)
  then have "t = butlast t @ [last t]" by simp
  then have "tail_digits t = tail_digits (butlast t @ [last t])" by simp
  with a have "is_digit (last t)"
    by (auto simp: tail_digits_def split: if_splits)
  then have "last t \<noteq> newline" using newline_not_digit by auto
  then show ?thesis by (simp add: chomp_def)
qed

lemma prefix_new_disjoint:
  "new \<noteq> [] \<Longrightarrow> set p \<inter> set new = {} \<Longrightarrow> prefix p (new @ xs) \<Longrightarrow> p = []"
  by (cases p; cases new) auto

lemma replace_ne_prefix:
  "new \<noteq> [] \<Longrightarrow> set p \<inter> set new = {} \<Longrightarrow> prefix p (replace_ne s old new) \<Longrightarrow> prefix p s"
proof (induction s old new arbitrary: p rule: replace_ne.induct)
  case (1 old new)
  then show ?case by simp
next
  case (2 c cs old new)
  show ?case
  proof (cases "prefix old (c # cs)")
    case True
    with 2 have "p = []" using prefix_new_disjoint by auto
    then show ?thesis by simp
  next
    case False
    show ?thesis
    proof (cases p)
      case Nil
      then show ?thesis by simp
    next
      case (Cons a p')
      with False 2 show ?thesis by auto
    qed
  qed
qed

lemma sublist_new_disjoint:
  "old \<noteq> [] \<Longrightarrow> set old \<inter> set new = {} \<Longrightarrow> sublist old (new @ xs) \<Longrightarrow> sublist old xs"
proof (induction new)
  case Nil
  then show ?case by simp
next
  case (Cons n ns)
  from Cons.prems(1) obtain a old' where "old = a # old'" by (cases old) auto
  with Cons show ?case by (auto simp: sublist_Cons_right)
qed

lemma replace_ne_no_occurrence:
  "old \<noteq> [] \<Longrightarrow> new \<noteq> [] \<Longrightarrow> set old \<inter> set new = {} \<Longrightarrow>
   \<not> sublist old (replace_ne s old new)"
proof (induction s old new rule: replace_ne.induct)
  case (1 old new)
  then show ?case by simp
next
  case (2 c cs old new)
  show ?case
  proof (cases "prefix old (c # cs)")
    case True
    with 2 show ?thesis using sublist_new_disjoint by auto
  next
    case False
    from 2(3) obtain a old' where old: "old = a # old'" by (cases old) auto
    have "\<not> prefix old (c # replace_ne cs old new)"
    proof
      assume "prefix old (c # replace_ne cs old new)"
      with old have ac: "a = c" and "prefix old' (replace_ne cs old new)" by auto
      moreover have "set old' \<inter> set new = {}" using 2(5) old by auto
      ultimately have "prefix old' cs" using replace_ne_prefix 2(4) by blast
      with ac old False show False by simp
    qed
    with False 2 show ?thesis by (auto simp: sublist_Cons_right)
  qed
qed

lemma replace_ne_last:
  "s \<noteq> [] \<Longrightarrow> new \<noteq> [] \<Longrightarrow>
   replace_ne s old new \<noteq> [] \<and> last (replace_ne s old new) \<in> {last s, last new}"
proof (induction s old new rule: replace_ne.induct)
  case (1 old new)
  then show ?case by simp
next
  case (2 c cs old new)
  show ?case
  proof (cases "prefix old (c # cs)")
    case True
    show ?thesis
    proof (cases "drop (length old - 1) cs = []")
      case e: True
      with True 2 show ?thesis by simp
    next
      case ne: False
      then have "cs \<noteq> []" by auto
      moreover have "last (drop (length old - 1) cs) = last cs" using ne by simp
      ultimately show ?thesis using True ne 2 by auto
    qed
  next
    case False
    with 2 show ?thesis by (cases "cs = []") auto
  qed
qed

subsection \<open>The two fixups\<close>

lemma chosen_link_nonempty: "chosen_link r = Inr (JStr l) \<Longrightarrow> l \<noteq> [] \<Longrightarrow> r \<noteq> []"
  by (auto simp: chosen_link_def update_available_def)

lemma release_url_chosen:
  "dict_get d k = JObj r \<Longrightarrow> r \<noteq> [] \<Longrightarrow>
   release_url d k = bind_exn (chosen_link r) (\<lambda>link. bind_exn (chosen_tag r) (fix_link link))"
  by (cases r) (auto simp: release_url_def chosen_link_def chosen_tag_def update_available_def Let_def)

lemma release_url_empty: "dict_get d k = JObj [] \<Longrightarrow> release_url d k = Inr JNull"
  by (simp add: release_url_def)

lemma fix_link_str:
  "fix_link (JStr l) tag =
     (if suffix ''undefined'' l then
        (case tag of
           JStr t \<Rightarrow>
             Inr (JStr (if tail_digits (chomp t) = [] then l
                        else str_replace l ''undefined'' (tail_digits (chomp t))))
         | _ \<Rightarrow> Inl TypeError)
      else if suffix ''.'' l then
        (case tag of
           JStr t \<Rightarrow> Inr (JStr (l @ tail_digits (chomp t)))
         | _ \<Rightarrow> Inl TypeError)
      else Inr (JStr l))"
proof -
  have ne: "suffix ''undefined'' l \<or> suffix ''.'' l \<Longrightarrow> l \<noteq> []" by auto
  show ?thesis
    by (cases tag) (auto simp: search_digits_tail dest: ne)
qed

lemma release_url_fix_link:
  assumes "dict_get d k = JObj r" and "chosen_link r = Inr (JStr l)" and "chosen_tag r = Inr tag"
  shows "release_url d k = fix_link (JStr l) tag"
proof (cases "r = []")
  case True
  with assms(2) show ?thesis by (simp add: chosen_link_def update_available_def)
next
  case False
  with assms show ?thesis by (simp add: release_url_chosen del: fix_link.simps)
qed

text \<open>
  Claim C1, as the code has it. For a record stored under the entity's name whose chosen tag
  is a string \<open>t\<close>, \<^verbatim>\<open>release_url\<close> applies the two fixups in order to the chosen link. The
  digits are the trailing run of decimal digits of \<open>t\<close> read without one final newline
  (\<open>tail_digits (chomp t)\<close>), since \<^verbatim>\<open>$\<close> also matches before a newline that ends the tag. If
  the link ends with \<^verbatim>\<open>undefined\<close>, the digits replace \<^verbatim>\<open>undefined\<close> in it, and the link is kept
  when there are no digits; else if the link ends with a dot, the digits are appended.
\<close>

theorem release_url_fixups:
  assumes "dict_get d k = JObj r" and "chosen_tag r = Inr (JStr t)"
  shows "(chosen_link r = Inr (JStr l) \<and> suffix ''undefined'' l \<longrightarrow>
            release_url d k =
              Inr (JStr (if tail_digits (chomp t) = [] then l
                         else str_replace l ''undefined'' (tail_digits (chomp t)))))
         \<and> (chosen_link r = Inr (JStr l) \<and> \<not> suffix ''undefined'' l \<and> suffix ''.'' l \<longrightarrow>
            release_url d k = Inr (JStr (l @ tail_digits (chomp t))))"
proof (intro conjI impI)
  assume a: "chosen_link r = Inr (JStr l) \<and> suffix ''undefined'' l"
  then have "release_url d k = fix_link (JStr l) (JStr t)"
    using assms release_url_fix_link by blast
  with a show "release_url d k =
      Inr (JStr (if tail_digits (chomp t) = [] then l
                 else str_replace l ''undefined'' (tail_digits (chomp t))))"
    by (simp add: fix_link_str del: fix_link.simps)
next
  assume a: "chosen_link r = Inr (JStr l) \<and> \<not> suffix ''undefined'' l \<and> suffix ''.'' l"
  then have "release_url d k = fix_link (JStr l) (JStr t)"
    using assms release_url_fix_link by blast
  with a show "release_url d k = Inr (JStr (l @ tail_digits (chomp t)))"
    by (simp add: fix_link_str del: fix_link.simps)
qed

text \<open>
  The link \<^verbatim>\<open>.../releases/download/v1.2.undefined\<close> with tag \<^verbatim>\<open>v1.2.3\<close> yields
  \<^verbatim>\<open>.../releases/download/v1.2.3\<close>, and \<^verbatim>\<open>.../releases/tag/v2.0.\<close> with tag \<^verbatim>\<open>v2.0.5\<close> yields
  \<^verbatim>\<open>.../releases/tag/v2.0.5\<close>.
\<close>

theorem release_url_fixups_witness:
  "dict_get [(JStr ''web'', JObj pre_record)] (JStr ''web'') = JObj pre_record
   \<and> chosen_link pre_record = Inr (JStr ''https://h/releases/download/v1.2.undefined'')
   \<and> suffix ''undefined'' ''https://h/releases/download/v1.2.undefined''
   \<and> chosen_tag pre_record = Inr (JStr ''v1.2.3'')
   \<and> release_url [(JStr ''web'', JObj pre_record)] (JStr ''web'') =
       Inr (JStr ''https://h/releases/download/v1.2.3'')
   \<and> dict_get [(JStr ''web'', JObj dot_record)] (JStr ''web'') = JObj dot_record
   \<and> chosen_link dot_record = Inr (JStr ''https://h/releases/tag/v2.0.'')
   \<and> \<not> suffix ''undefined'' ''https://h/releases/tag/v2.0.''
   \<and> suffix ''.'' ''https://h/releases/tag/v2.0.''
   \<and> chosen_tag dot_record = Inr (JStr ''v2.0.5'')
   \<and> release_url [(JStr ''web'', JObj dot_record)] (JStr ''web'') =
       Inr (JStr ''https://h/releases/tag/v2.0.5'')"
proof -
  have a: "dict_get [(JStr ''web'', JObj pre_record)] (JStr ''web'') = JObj pre_record"
    and b: "dict_get [(JStr ''web'', JObj dot_record)] (JStr ''web'') = JObj dot_record"
    by simp_all
  have la: "chosen_link pre_record = Inr (JStr ''https://h/releases/download/v1.2.undefined'')"
    and ta: "chosen_tag pre_record = Inr (JStr ''v1.2.3'')"
    by (simp_all add: chosen_link_def chosen_tag_def pre_record_def update_available_def
        result_field_def)
  have lb: "chosen_link dot_record = Inr (JStr ''https://h/releases/tag/v2.0.'')"
    and tb: "chosen_tag dot_record = Inr (JStr ''v2.0.5'')"
    by (simp_all add: chosen_link_def chosen_tag_def dot_record_def update_available_def
        image_tag_value_def)
  have da: "tail_digits (chomp ''v1.2.3'') = ''3''"
    and db: "tail_digits (chomp ''v2.0.5'') = ''5''"
    by (simp_all add: tail_digits_def chomp_def is_digit_def newline_def)
  have sa: "suffix ''undefined'' ''https://h/releases/download/v1.2.undefined''"
    and sb: "\<not> suffix ''undefined'' ''https://h/releases/tag/v2.0.''"
    and sc: "suffix ''.'' ''https://h/releases/tag/v2.0.''"
    by (simp_all add: suffix_to_prefix)
  have ra: "str_replace ''https://h/releases/download/v1.2.undefined'' ''undefined'' ''3'' =
      ''https://h/releases/download/v1.2.3''"
    by (simp add: str_replace_def)
  show ?thesis
    using release_url_fixups [OF a ta, of "''https://h/releases/download/v1.2.undefined''"]
      release_url_fixups [OF b tb, of "''https://h/releases/tag/v2.0.''"]
    by (simp add: a b la ta lb tb da db sa sb sc ra)
qed

text \<open>
  Claim C1 as stated fails in two ways. On a tag that ends with a newline: the tag
  \<^verbatim>\<open>v1.2.3\n\<close> has no trailing digits, so the link should keep \<^verbatim>\<open>undefined\<close>, but the search
  finds \<^verbatim>\<open>3\<close> and the link is rewritten. On a tag that is not a string: with no result tag
  the tag is \<^verbatim>\<open>None\<close>, which has no trailing digits either, so the link should again keep
  \<^verbatim>\<open>undefined\<close>, but the search raises \<^verbatim>\<open>TypeError\<close>.
\<close>

theorem release_url_digit_run_fails:
  "dict_get [(JStr ''web'', JObj nl_record)] (JStr ''web'') = JObj nl_record
   \<and> chosen_link nl_record = Inr (JStr ''https://h/v1.2.undefined'')
   \<and> chosen_tag nl_record = Inr (JStr (''v1.2.3'' @ [newline]))
   \<and> suffix ''undefined'' ''https://h/v1.2.undefined''
   \<and> tail_digits (''v1.2.3'' @ [newline]) = []
   \<and> release_url [(JStr ''web'', JObj nl_record)] (JStr ''web'') = Inr (JStr ''https://h/v1.2.3'')
   \<and> release_url [(JStr ''web'', JObj nl_record)] (JStr ''web'')
       \<noteq> Inr (JStr ''https://h/v1.2.undefined'')
   \<and> dict_get [(JStr ''web'', JObj no_tag_record)] (JStr ''web'') = JObj no_tag_record
   \<and> chosen_link no_tag_record = Inr (JStr ''https://h/v1.2.undefined'')
   \<and> chosen_tag no_tag_record = Inr JNull
   \<and> release_url [(JStr ''web'', JObj no_tag_record)] (JStr ''web'') = Inl TypeError
   \<and> release_url [(JStr ''web'', JObj no_tag_record)] (JStr ''web'')
       \<noteq> Inr (JStr ''https://h/v1.2.undefined'')"
  by (simp add: nl_record_def no_tag_record_def chosen_link_def chosen_tag_def
      update_available_def result_field_def release_url_def suffix_to_prefix tail_digits_def
      newline_not_digit match_here_def is_digit_def str_replace_def newline_def)

subsection \<open>Fixed points of the fixups\<close>

lemma suffix_last: "suffix s y \<Longrightarrow> s \<noteq> [] \<Longrightarrow> last y = last s"
  by (auto simp: suffix_def)

lemma dot_not_digit: "\<not> is_digit (CHR ''.'')"
  by (simp add: is_digit_def)

lemma d_not_digit: "\<not> is_digit (CHR ''d'')"
  by (simp add: is_digit_def)

lemma suffix_undefined_last: "suffix ''undefined'' y \<Longrightarrow> last y = CHR ''d''"
  using suffix_last [of "''undefined''" y] by simp

lemma suffix_dot_last: "suffix ''.'' y \<Longrightarrow> last y = CHR ''.''"
  using suffix_last [of "''.''" y] by simp

lemma ends_with_digit:
  assumes "is_digit (last y)"
  shows "\<not> suffix ''undefined'' y" and "\<not> suffix ''.'' y"
proof -
  show "\<not> suffix ''undefined'' y"
    using assms suffix_undefined_last [of y] d_not_digit by auto
  show "\<not> suffix ''.'' y"
    using assms suffix_dot_last [of y] dot_not_digit by auto
qed

lemma fix_link_fixed:
  "\<not> suffix ''undefined'' y \<Longrightarrow> \<not> suffix ''.'' y \<Longrightarrow> fix_link (JStr y) tag = Inr (JStr y)"
  by (simp add: fix_link_str del: fix_link.simps)

lemma undefined_no_digit:
  assumes "\<forall>c\<in>set ds. is_digit c"
  shows "set ''undefined'' \<inter> set ds = {}"
proof -
  have "\<forall>c\<in>set ''undefined''. \<not> is_digit c" by (simp add: is_digit_def)
  with assms show ?thesis by blast
qed

lemma replaced_no_undefined:
  assumes "ds \<noteq> []" and "\<forall>c\<in>set ds. is_digit c"
  shows "\<not> sublist ''undefined'' (str_replace l ''undefined'' ds)"
proof -
  have "\<not> sublist ''undefined'' (replace_ne l ''undefined'' ds)"
    by (rule replace_ne_no_occurrence [OF _ assms(1) undefined_no_digit [OF assms(2)]]) simp
  then show ?thesis by (simp add: str_replace_def)
qed

lemma replaced_fixed:
  assumes "suffix ''undefined'' l" and "ds \<noteq> []" and "\<forall>c\<in>set ds. is_digit c"
  shows "fix_link (JStr (str_replace l ''undefined'' ds)) tag =
         Inr (JStr (str_replace l ''undefined'' ds))"
proof (rule fix_link_fixed)
  let ?r = "replace_ne l ''undefined'' ds"
  have eq: "str_replace l ''undefined'' ds = ?r" by (simp add: str_replace_def)
  show "\<not> suffix ''undefined'' (str_replace l ''undefined'' ds)"
    using replaced_no_undefined [OF assms(2,3), of l] suffix_imp_sublist by blast
  have "l \<noteq> []" using assms(1) by auto
  then have "last ?r = last l \<or> last ?r = last ds"
    using replace_ne_last [of l ds "''undefined''"] assms(2) by blast
  moreover have "last l = CHR ''d''" using assms(1) by (rule suffix_undefined_last)
  moreover have "is_digit (last ds)" using assms(2,3) by simp
  ultimately have "last ?r \<noteq> CHR ''.''" using dot_not_digit by auto
  then show "\<not> suffix ''.'' (str_replace l ''undefined'' ds)"
    unfolding eq using suffix_dot_last [of ?r] by blast
qed

lemma appended_fixed:
  assumes "ds \<noteq> []" and "\<forall>c\<in>set ds. is_digit c"
  shows "fix_link (JStr (l @ ds)) tag = Inr (JStr (l @ ds))"
proof (rule fix_link_fixed)
  have "is_digit (last (l @ ds))" using assms by simp
  then show "\<not> suffix ''undefined'' (l @ ds)" and "\<not> suffix ''.'' (l @ ds)"
    by (rule ends_with_digit)+
qed

lemma tail_digits_chomp_digits: "\<forall>c\<in>set (tail_digits (chomp t)). is_digit c"
  using tail_digits_is_digit by blast

lemma fix_link_undefined:
  "suffix ''undefined'' x \<Longrightarrow>
   fix_link (JStr x) (JStr t) =
     Inr (JStr (if tail_digits (chomp t) = [] then x
                else str_replace x ''undefined'' (tail_digits (chomp t))))"
  by (simp add: fix_link_str del: fix_link.simps)

lemma fix_link_dot:
  "\<not> suffix ''undefined'' x \<Longrightarrow> suffix ''.'' x \<Longrightarrow>
   fix_link (JStr x) (JStr t) = Inr (JStr (x @ tail_digits (chomp t)))"
  by (simp add: fix_link_str del: fix_link.simps)

lemma fix_link_not_string_tag:
  "suffix ''undefined'' x \<or> suffix ''.'' x \<Longrightarrow> \<forall>t. tag \<noteq> JStr t \<Longrightarrow>
   fix_link (JStr x) tag = Inl TypeError"
  by (cases tag) (auto simp: fix_link_str simp del: fix_link.simps)

lemma fix_link_twice_str:
  "bind_exn (fix_link (JStr x) tag) (\<lambda>link'. fix_link link' tag) = fix_link (JStr x) tag"
proof (cases "\<not> suffix ''undefined'' x \<and> \<not> suffix ''.'' x")
  case True
  then show ?thesis using fix_link_fixed [of x tag] by simp
next
  case sfx: False
  show ?thesis
  proof (cases "\<exists>t. tag = JStr t")
    case False
    then have "fix_link (JStr x) tag = Inl TypeError"
      using sfx fix_link_not_string_tag [of x tag] by blast
    then show ?thesis by simp
  next
    case True
    then obtain t where t: "tag = JStr t" ..
    define ds where "ds = tail_digits (chomp t)"
    have dig: "\<forall>c\<in>set ds. is_digit c" unfolding ds_def by (rule tail_digits_chomp_digits)
    show ?thesis
    proof (cases "suffix ''undefined'' x")
      case u: True
      show ?thesis
      proof (cases "ds = []")
        case True
        then have "fix_link (JStr x) tag = Inr (JStr x)"
          unfolding t using fix_link_undefined [OF u, of t] by (simp add: ds_def)
        then show ?thesis by simp
      next
        case False
        then have "fix_link (JStr x) tag = Inr (JStr (str_replace x ''undefined'' ds))"
          unfolding t using fix_link_undefined [OF u, of t] by (simp add: ds_def)
        then show ?thesis using replaced_fixed [OF u False dig, of tag] by simp
      qed
    next
      case nu: False
      with sfx have d: "suffix ''.'' x" by blast
      have r: "fix_link (JStr x) tag = Inr (JStr (x @ ds))"
        unfolding t using fix_link_dot [OF nu d, of t] by (simp add: ds_def)
      show ?thesis
      proof (cases "ds = []")
        case True
        with r show ?thesis by simp
      next
        case False
        with r show ?thesis using appended_fixed [OF False dig, of x tag] by simp
      qed
    qed
  qed
qed

text \<open>
  Claim C8. A link that ends with neither \<^verbatim>\<open>undefined\<close> nor a dot is returned unchanged,
  whatever the tag. For every link and every tag, the fixup applied to its own result gives
  that result again; when the first application raises, so does the sequence, with the same
  exception.
\<close>

theorem fix_link_idempotent:
  "(\<not> suffix ''undefined'' l \<and> \<not> suffix ''.'' l \<longrightarrow> fix_link (JStr l) tag = Inr (JStr l))
   \<and> bind_exn (fix_link link tag) (\<lambda>link'. fix_link link' tag) = fix_link link tag"
proof
  show "\<not> suffix ''undefined'' l \<and> \<not> suffix ''.'' l \<longrightarrow> fix_link (JStr l) tag = Inr (JStr l)"
    using fix_link_fixed by blast
  show "bind_exn (fix_link link tag) (\<lambda>link'. fix_link link' tag) = fix_link link tag"
  proof (cases link)
    case (JStr x)
    then show ?thesis using fix_link_twice_str by simp
  qed simp_all
qed

text \<open>A link that needs no fixup.\<close>

theorem fix_link_idempotent_witness:
  "\<not> suffix ''undefined'' ''https://h/v1.2.3'' \<and> \<not> suffix ''.'' ''https://h/v1.2.3''
   \<and> fix_link (JStr ''https://h/v1.2.3'') (JStr ''v1.2.3'') = Inr (JStr ''https://h/v1.2.3'')"
proof -
  have a: "\<not> suffix ''undefined'' ''https://h/v1.2.3''" and b: "\<not> suffix ''.'' ''https://h/v1.2.3''"
    by (simp_all add: suffix_to_prefix)
  from a b show ?thesis
    using fix_link_idempotent [of "''https://h/v1.2.3''" "JStr ''v1.2.3''"] by blast
qed

text \<open>
  Claim C9. When the chosen link ends with \<^verbatim>\<open>undefined\<close> or with a dot, \<^verbatim>\<open>release_url\<close>
  returns a value exactly when the chosen tag is a string; for every other tag, an absent one
  (\<^verbatim>\<open>None\<close>) among them, it raises \<^verbatim>\<open>TypeError\<close>.
\<close>

theorem release_url_needs_string_tag:
  assumes "dict_get d k = JObj r" and "chosen_link r = Inr (JStr l)"
    and "suffix ''undefined'' l \<or> suffix ''.'' l" and "chosen_tag r = Inr tag"
  shows "((\<exists>v. release_url d k = Inr v) \<longleftrightarrow> (\<exists>t. tag = JStr t))
         \<and> ((\<forall>t. tag \<noteq> JStr t) \<longrightarrow> release_url d k = Inl TypeError)"
proof -
  have eq: "release_url d k = fix_link (JStr l) tag"
    using assms(1,2,4) by (rule release_url_fix_link)
  show ?thesis
  proof (cases "\<exists>t. tag = JStr t")
    case True
    then obtain t where "tag = JStr t" ..
    then show ?thesis using eq assms(3) fix_link_undefined [of l t] fix_link_dot [of l t]
      by auto
  next
    case False
    then show ?thesis using eq fix_link_not_string_tag [OF assms(3), of tag] by simp
  qed
qed

text \<open>
  A snapshot with \<^verbatim>\<open>updateAvailable\<close> true, a result link that ends with \<^verbatim>\<open>undefined\<close> and no
  result tag: reading \<^verbatim>\<open>release_url\<close> raises \<^verbatim>\<open>TypeError\<close>.
\<close>

theorem release_url_needs_string_tag_witness:
  "dict_get [(JStr ''web'', JObj no_tag_record)] (JStr ''web'') = JObj no_tag_record
   \<and> chosen_link no_tag_record = Inr (JStr ''https://h/v1.2.undefined'')
   \<and> suffix ''undefined'' ''https://h/v1.2.undefined''
   \<and> chosen_tag no_tag_record = Inr JNull
   \<and> release_url [(JStr ''web'', JObj no_tag_record)] (JStr ''web'') = Inl TypeError"
proof -
  have a: "dict_get [(JStr ''web'', JObj no_tag_record)] (JStr ''web'') = JObj no_tag_record"
    by simp
  have l: "chosen_link no_tag_record = Inr (JStr ''https://h/v1.2.undefined'')"
    and t: "chosen_tag no_tag_record = Inr JNull"
    by (simp_all add: chosen_link_def chosen_tag_def no_tag_record_def update_available_def
        result_field_def)
  have s: "suffix ''undefined'' ''https://h/v1.2.undefined''"
    by (simp add: suffix_to_prefix)
  from s have s': "suffix ''undefined'' ''https://h/v1.2.undefined''
      \<or> suffix ''.'' ''https://h/v1.2.undefined''" ..
  show ?thesis using release_url_needs_string_tag [OF a l s' t] a l s t by simp
qed

text \<open>
  Claim C10. When the chosen link ends with \<^verbatim>\<open>undefined\<close> and the chosen tag has a trailing
  run of decimal digits, the result is the link with every occurrence of \<^verbatim>\<open>undefined\<close>
  replaced by those digits (Python's \<^verbatim>\<open>replace\<close>), and no occurrence of \<^verbatim>\<open>undefined\<close> is left
  anywhere in it.
\<close>

theorem fixup_replaces_every_occurrence:
  assumes "dict_get d k = JObj r" and "chosen_link r = Inr (JStr l)"
    and "suffix ''undefined'' l" and "chosen_tag r = Inr (JStr t)" and "tail_digits t \<noteq> []"
  shows "release_url d k = Inr (JStr (str_replace l ''undefined'' (tail_digits t)))
         \<and> \<not> sublist ''undefined'' (str_replace l ''undefined'' (tail_digits t))"
proof
  have "release_url d k = fix_link (JStr l) (JStr t)"
    using assms(1,2,4) by (rule release_url_fix_link)
  then show "release_url d k = Inr (JStr (str_replace l ''undefined'' (tail_digits t)))"
    using assms(5) fix_link_undefined [OF assms(3), of t] tail_digits_chomp [OF assms(5)]
    by simp
  show "\<not> sublist ''undefined'' (str_replace l ''undefined'' (tail_digits t))"
    using replaced_no_undefined [OF assms(5)] tail_digits_is_digit by blast
qed

text \<open>The occurrence in the host name is replaced as well as the trailing one.\<close>

theorem fixup_replaces_every_occurrence_witness:
  "dict_get [(JStr ''web'', JObj twice_record)] (JStr ''web'') = JObj twice_record
   \<and> chosen_link twice_record = Inr (JStr ''https://undefined.io/v1.undefined'')
   \<and> suffix ''undefined'' ''https://undefined.io/v1.undefined''
   \<and> chosen_tag twice_record = Inr (JStr ''v1.7'')
   \<and> tail_digits ''v1.7'' = ''7''
   \<and> release_url [(JStr ''web'', JObj twice_record)] (JStr ''web'') = Inr (JStr ''https://7.io/v1.7'')"
proof -
  have a: "dict_get [(JStr ''web'', JObj twice_record)] (JStr ''web'') = JObj twice_record"
    by simp
  have l: "chosen_link twice_record = Inr (JStr ''https://undefined.io/v1.undefined'')"
    and t: "chosen_tag twice_record = Inr (JStr ''v1.7'')"
    by (simp_all add: chosen_link_def chosen_tag_def twice_record_def update_available_def
        result_field_def)
  have s: "suffix ''undefined'' ''https://undefined.io/v1.undefined''"
    by (simp add: suffix_to_prefix)
  have d: "tail_digits ''v1.7'' = ''7''"
    by (simp add: tail_digits_def is_digit_def)
  then have ne: "tail_digits ''v1.7'' \<noteq> []" by simp
  have r: "str_replace ''https://undefined.io/v1.undefined'' ''undefined'' ''7'' = ''https://7.io/v1.7''"
    by (simp add: str_replace_def)
  show ?thesis using fixup_replaces_every_occurrence [OF a l s t ne] a l s t d r by simp
qed

section \<open>Properties of the release-notes fetch\<close>

lemma fetch_notes_requests: "requests (fetch_notes get api_url) = [Get api_url notes_headers]"
  by (auto simp: fetch_notes_def notes_failed_def split: sum.splits)

lemma fetch_notes_returns: "\<exists>v. result (fetch_notes get api_url) = Inr v"
  by (auto simp: fetch_notes_def notes_failed_def split: sum.splits)

lemma fetch_notes_403:
  "get (Get api_url notes_headers) = Inr response \<Longrightarrow> resp_status response = 403 \<Longrightarrow>
   fetch_notes get api_url =
     \<lparr>logged = [(LError, ''GitHub API rate limit exceeded'')],
      requests = [Get api_url notes_headers], result = Inr JNull\<rparr>"
  by (simp add: fetch_notes_def)

lemma fetch_notes_error_status:
  "get (Get api_url notes_headers) = Inr response \<Longrightarrow> 400 \<le> resp_status response \<Longrightarrow>
   resp_status response \<noteq> 403 \<Longrightarrow>
   fetch_notes get api_url =
     \<lparr>logged = [(LError, ''Error fetching release notes from GitHub API: %s'')],
      requests = [Get api_url notes_headers], result = Inr JNull\<rparr>"
  by (simp add: fetch_notes_def raise_for_status_def notes_failed_def)

lemma release_notes_cases:
  "requests (async_release_notes get d k) = []
   \<or> (\<exists>api_url. async_release_notes get d k = fetch_notes get api_url)"
  by (auto simp: async_release_notes_def raised_def Let_def split: sum.splits bool.splits option.splits)

lemma release_notes_fetch:
  assumes "requests (async_release_notes get d k) = [rq]"
  shows "\<exists>api_url. rq = Get api_url notes_headers \<and> async_release_notes get d k = fetch_notes get api_url"
proof -
  from assms release_notes_cases [of get d k]
  obtain api_url where a: "async_release_notes get d k = fetch_notes get api_url" by auto
  with assms have "rq = Get api_url notes_headers" by (simp add: fetch_notes_requests)
  with a show ?thesis by blast
qed

text \<open>
  Claim C6. Whenever the release-notes fetch has sent its request and the answer has status
  403, the result is \<^verbatim>\<open>None\<close>, returned and not raised; the rate limit is logged.
\<close>

theorem release_notes_403_absent:
  assumes "requests (async_release_notes get d k) = [rq]"
    and "get rq = Inr response" and "resp_status response = 403"
  shows "result (async_release_notes get d k) = Inr JNull
         \<and> logged (async_release_notes get d k) = [(LError, ''GitHub API rate limit exceeded'')]"
proof -
  from release_notes_fetch [OF assms(1)] obtain api_url
    where rq: "rq = Get api_url notes_headers"
      and a: "async_release_notes get d k = fetch_notes get api_url" by blast
  from assms(2) rq have "get (Get api_url notes_headers) = Inr response" by simp
  then show ?thesis using fetch_notes_403 [of get api_url response] assms(3) a by simp
qed

lemma web_release_url:
  "release_url example_snapshot (JStr ''web'') = Inr (JStr ''https://github.com/o/r/releases/tag/1.3'')"
  by (simp add: release_url_def example_snapshot_def web_record_def result_field_def
      suffix_to_prefix)

lemma web_api_url_of:
  "api_url_of (JStr ''https://github.com/o/r/releases/tag/1.3'') = Inr (Some web_api_url)"
  by (simp add: api_url_of_def web_api_url_def sublist_code str_replace_def)

lemma web_github: "sublist ''github.com'' ''https://github.com/o/r/releases/tag/1.3''"
  by (simp add: sublist_code)

lemma web_release_notes:
  "async_release_notes get example_snapshot (JStr ''web'') = fetch_notes get web_api_url"
proof -
  have "truthy (dict_get example_snapshot (JStr ''web''))"
    by (simp add: example_snapshot_def web_record_def)
  then show ?thesis
    by (simp add: async_release_notes_def web_release_url web_api_url_of web_github)
qed

text \<open>The release link of \<^verbatim>\<open>web\<close> with a session that answers 403.\<close>

theorem release_notes_403_absent_witness:
  "requests (async_release_notes (answer 403) example_snapshot (JStr ''web'')) =
     [Get web_api_url notes_headers]
   \<and> resp_status \<lparr>resp_status = 403, resp_json = Inr (JObj [(''body'', JStr ''notes'')]),
                    resp_text = Inr ''''\<rparr> = 403
   \<and> result (async_release_notes (answer 403) example_snapshot (JStr ''web'')) = Inr JNull"
proof -
  have r: "requests (async_release_notes (answer 403) example_snapshot (JStr ''web'')) =
     [Get web_api_url notes_headers]"
    by (simp add: web_release_notes fetch_notes_requests)
  have g: "answer 403 (Get web_api_url notes_headers) =
     Inr \<lparr>resp_status = 403, resp_json = Inr (JObj [(''body'', JStr ''notes'')]), resp_text = Inr ''''\<rparr>"
    by (simp add: answer_def)
  show ?thesis using release_notes_403_absent [OF r g] r by simp
qed

text \<open>
  Claim C5, as the code has it. A status of 400 or more other than 403 makes
  \<^verbatim>\<open>raise_for_status\<close> raise a client error inside the \<^verbatim>\<open>try\<close> block; the
  \<^verbatim>\<open>except aiohttp.ClientError\<close> clause catches it, logs it and returns \<^verbatim>\<open>None\<close>. Nothing is
  raised to the caller.
\<close>

theorem release_notes_error_status_absent:
  assumes "requests (async_release_notes get d k) = [rq]"
    and "get rq = Inr response" and "400 \<le> resp_status response"
    and "resp_status response \<noteq> 403"
  shows "result (async_release_notes get d k) = Inr JNull
         \<and> logged (async_release_notes get d k) =
             [(LError, ''Error fetching release notes from GitHub API: %s'')]"
proof -
  from release_notes_fetch [OF assms(1)] obtain api_url
    where rq: "rq = Get api_url notes_headers"
      and a: "async_release_notes get d k = fetch_notes get api_url" by blast
  from assms(2) rq have "get (Get api_url notes_headers) = Inr response" by simp
  then show ?thesis
    using fetch_notes_error_status [of get api_url response] assms(3,4) a by simp
qed

text \<open>The release link of \<^verbatim>\<open>web\<close> with a session that answers 500.\<close>

theorem release_notes_error_status_absent_witness:
  "requests (async_release_notes (answer 500) example_snapshot (JStr ''web'')) =
     [Get web_api_url notes_headers]
   \<and> (400::int) \<le> 500 \<and> (500::int) \<noteq> 403
   \<and> result (async_release_notes (answer 500) example_snapshot (JStr ''web'')) = Inr JNull"
proof -
  have r: "requests (async_release_notes (answer 500) example_snapshot (JStr ''web'')) =
     [Get web_api_url notes_headers]"
    by (simp add: web_release_notes fetch_notes_requests)
  have g: "answer 500 (Get web_api_url notes_headers) =
     Inr \<lparr>resp_status = 500, resp_json = Inr (JObj [(''body'', JStr ''notes'')]), resp_text = Inr ''''\<rparr>"
    by (simp add: answer_def)
  show ?thesis using release_notes_error_status_absent [OF r g] r by simp
qed

text \<open>
  Claim C5 as stated fails: with a session that answers 404 the fetch returns \<^verbatim>\<open>None\<close>
  and raises nothing.
\<close>

theorem release_notes_404_swallowed:
  "requests (async_release_notes (answer 404) example_snapshot (JStr ''web'')) =
     [Get web_api_url notes_headers]
   \<and> result (async_release_notes (answer 404) example_snapshot (JStr ''web'')) = Inr JNull
   \<and> result (async_release_notes (answer 404) example_snapshot (JStr ''web'')) \<noteq> Inl ClientError"
  by (simp add: web_release_notes fetch_notes_def answer_def raise_for_status_def
      notes_failed_def)

section \<open>Properties of install and of the refresh\<close>

text \<open>
  The paths of install that end before the request. Install sends no request, returns
  without raising and logs an error when the record is absent (or empty), and when the
  record's \<^verbatim>\<open>labels\<close> field is missing or a dict in which the trigger label is missing or
  empty. When the \<^verbatim>\<open>labels\<close> field is present and not a dict, install sends no request
  either, but the second \<^verbatim>\<open>get\<close> raises \<^verbatim>\<open>AttributeError\<close> and no error is logged.
\<close>

theorem install_without_label:
  "(\<not> truthy (dict_get d k) \<longrightarrow>
      async_install post url d k =
        \<lparr>logged = [(LInfo, ''Starting update for container %s''),
                   (LError, ''Container data not found for %s'')],
         requests = [], result = Inr ()\<rparr>)
   \<and> (dict_get d k = JObj r \<and> r \<noteq> [] \<and> record_labels r = JObj ls \<and> \<not> truthy (trigger_label ls) \<longrightarrow>
      async_install post url d k =
        \<lparr>logged = [(LInfo, ''Starting update for container %s''),
                   (LError, ''HASS Trigger Label not found for %s'')],
         requests = [], result = Inr ()\<rparr>)
   \<and> (dict_get d k = JObj r \<and> r \<noteq> [] \<and> (\<forall>ls'. record_labels r \<noteq> JObj ls') \<longrightarrow>
      async_install post url d k =
        \<lparr>logged = [(LInfo, ''Starting update for container %s'')],
         requests = [], result = Inl AttributeError\<rparr>)"
proof (intro conjI impI)
  assume "\<not> truthy (dict_get d k)"
  then show "async_install post url d k =
        \<lparr>logged = [(LInfo, ''Starting update for container %s''),
                   (LError, ''Container data not found for %s'')],
         requests = [], result = Inr ()\<rparr>"
    by (simp add: async_install_def)
next
  assume a: "dict_get d k = JObj r \<and> r \<noteq> [] \<and> record_labels r = JObj ls \<and> \<not> truthy (trigger_label ls)"
  then have "py_get (JObj r) ''labels'' (JObj []) = Inr (JObj ls)"
    by (simp add: record_labels_def)
  moreover have "py_get (JObj ls) ''wud.trigger.hass'' (JObj []) = Inr (trigger_label ls)"
    by (simp add: trigger_label_def)
  ultimately show "async_install post url d k =
        \<lparr>logged = [(LInfo, ''Starting update for container %s''),
                   (LError, ''HASS Trigger Label not found for %s'')],
         requests = [], result = Inr ()\<rparr>"
    using a by (simp add: async_install_def)
next
  assume a: "dict_get d k = JObj r \<and> r \<noteq> [] \<and> (\<forall>ls'. record_labels r \<noteq> JObj ls')"
  have l: "py_get (JObj r) ''labels'' (JObj []) = Inr (record_labels r)"
    by (simp add: record_labels_def)
  have "py_get (record_labels r) ''wud.trigger.hass'' (JObj []) = Inl AttributeError"
    using a by (cases "record_labels r") auto
  with l a show "async_install post url d k =
        \<lparr>logged = [(LInfo, ''Starting update for container %s'')],
         requests = [], result = Inl AttributeError\<rparr>"
    by (simp add: async_install_def)
qed

text \<open>
  The three cases: a name that is not a key, the record \<open>web_record\<close> without labels, and
  \<open>null_labels_record\<close>.
\<close>

theorem install_without_label_witness:
  "\<not> truthy (dict_get example_snapshot (JStr ''gone''))
   \<and> requests (async_install (answer 200) wud_url example_snapshot (JStr ''gone'')) = []
   \<and> result (async_install (answer 200) wud_url example_snapshot (JStr ''gone'')) = Inr ()
   \<and> dict_get example_snapshot (JStr ''web'') = JObj web_record \<and> web_record \<noteq> []
   \<and> record_labels web_record = JObj [] \<and> \<not> truthy (trigger_label [])
   \<and> requests (async_install (answer 200) wud_url example_snapshot (JStr ''web'')) = []
   \<and> result (async_install (answer 200) wud_url example_snapshot (JStr ''web'')) = Inr ()
   \<and> dict_get [(JStr ''web'', JObj null_labels_record)] (JStr ''web'') = JObj null_labels_record
   \<and> null_labels_record \<noteq> [] \<and> record_labels null_labels_record = JNull
   \<and> requests (async_install (answer 200) wud_url [(JStr ''web'', JObj null_labels_record)]
        (JStr ''web'')) = []"
  using install_without_label [of example_snapshot "JStr ''gone''" "answer 200" wud_url "[]" "[]"]
    install_without_label [of example_snapshot "JStr ''web''" "answer 200" wud_url web_record "[]"]
    install_without_label [of "[(JStr ''web'', JObj null_labels_record)]" "JStr ''web''"
      "answer 200" wud_url null_labels_record "[]"]
  by (simp add: example_snapshot_def web_record_def null_labels_record_def record_labels_def
      trigger_label_def)

text \<open>
  Claim C7. A container whose record lacks the trigger label is to be installed with no
  network call, an error logged and no exception. On a record that lacks the label because
  its \<^verbatim>\<open>labels\<close> field is \<^verbatim>\<open>null\<close>, the code sends no request but raises \<^verbatim>\<open>AttributeError\<close> and
  logs no error: the default of \<^verbatim>\<open>get("labels", {})\<close> covers a missing field only.
\<close>

theorem install_null_labels_raises:
  "dict_get [(JStr ''web'', JObj null_labels_record)] (JStr ''web'') = JObj null_labels_record
   \<and> map_of null_labels_record ''labels'' = Some JNull
   \<and> async_install (answer 200) wud_url [(JStr ''web'', JObj null_labels_record)] (JStr ''web'') =
       \<lparr>logged = [(LInfo, ''Starting update for container %s'')], requests = [],
        result = Inl AttributeError\<rparr>
   \<and> result (async_install (answer 200) wud_url [(JStr ''web'', JObj null_labels_record)]
        (JStr ''web'')) \<noteq> Inr ()"
  by (simp add: async_install_def null_labels_record_def)

lemma update_data_failure:
  "result (async_update_data get url) = Inl e \<Longrightarrow> \<exists>msg. e = UpdateFailed msg"
  by (auto simp: async_update_data_def split: sum.splits exn.splits)

lemma fetch_raises:
  "get (Get (JStr url) []) = Inl e \<Longrightarrow> \<exists>msg. result (async_update_data get url) = Inl (UpdateFailed msg)"
  by (cases e) (simp_all add: async_update_data_def async_fetch_data_def)

text \<open>
  Claim C4. An exception of the request (a timeout, a client error, any other) makes
  \<^verbatim>\<open>_async_update_data\<close> raise the refresh-failure signal; whenever \<^verbatim>\<open>_async_update_data\<close>
  raises, what it raises is that signal, and the refresh step then keeps the snapshot, sets
  \<^verbatim>\<open>last_update_success\<close> to false in the same step, and every entity is unavailable. No
  exception leaves the refresh step.
\<close>

theorem refresh_failure_keeps_snapshot:
  "(get (Get (JStr url) []) = Inl e \<longrightarrow>
      (\<exists>msg. result (async_update_data get url) = Inl (UpdateFailed msg)))
   \<and> (result (async_update_data get url) = Inl e' \<longrightarrow>
      (\<exists>msg. e' = UpdateFailed msg)
      \<and> refresh get url c = Inr (c\<lparr>last_update_success := False\<rparr>)
      \<and> (\<forall>c'. refresh get url c = Inr c' \<longrightarrow>
            data c' = data c \<and> \<not> last_update_success c' \<and> \<not> available c'))
   \<and> (\<exists>c'. refresh get url c = Inr c')"
proof (intro conjI impI)
  assume "get (Get (JStr url) []) = Inl e"
  then show "\<exists>msg. result (async_update_data get url) = Inl (UpdateFailed msg)"
    by (rule fetch_raises)
next
  assume a: "result (async_update_data get url) = Inl e'"
  then show "\<exists>msg. e' = UpdateFailed msg" by (rule update_data_failure)
  then obtain msg where "e' = UpdateFailed msg" ..
  with a show r: "refresh get url c = Inr (c\<lparr>last_update_success := False\<rparr>)"
    by (simp add: refresh_def)
  show "\<forall>c'. refresh get url c = Inr c' \<longrightarrow>
            data c' = data c \<and> \<not> last_update_success c' \<and> \<not> available c'"
    using r by (auto simp: available_def)
next
  show "\<exists>c'. refresh get url c = Inr c'"
  proof (cases "result (async_update_data get url)")
    case (Inl e)
    then obtain msg where "e = UpdateFailed msg" using update_data_failure by blast
    with Inl show ?thesis by (simp add: refresh_def)
  next
    case (Inr m)
    then show ?thesis by (simp add: refresh_def)
  qed
qed

text \<open>A refresh that times out.\<close>

theorem refresh_failure_keeps_snapshot_witness:
  "failing TimeoutError (Get (JStr wud_url) []) = Inl TimeoutError
   \<and> result (async_update_data (failing TimeoutError) wud_url) =
       Inl (UpdateFailed ''Timeout fetching data from WUD'')
   \<and> refresh (failing TimeoutError) wud_url \<lparr>data = example_snapshot, last_update_success = True\<rparr> =
       Inr \<lparr>data = example_snapshot, last_update_success = False\<rparr>"
proof -
  have g: "failing TimeoutError (Get (JStr wud_url) []) = Inl TimeoutError"
    by (simp add: failing_def)
  have u: "result (async_update_data (failing TimeoutError) wud_url) =
       Inl (UpdateFailed ''Timeout fetching data from WUD'')"
    by (simp add: async_update_data_def async_fetch_data_def failing_def)
  show ?thesis
    using refresh_failure_keeps_snapshot [of "failing TimeoutError" wud_url TimeoutError
        "UpdateFailed ''Timeout fetching data from WUD''"
        "\<lparr>data = example_snapshot, last_update_success = True\<rparr>"] g u
    by simp
qed

section \<open>Properties of the snapshot built by a refresh\<close>

lemma key_eq_refl: "key_eq a a"
  by (cases a) auto

lemma key_eq_sym: "key_eq a b \<Longrightarrow> key_eq b a"
  by (cases a; cases b) auto

lemma key_eq_trans: "key_eq a b \<Longrightarrow> key_eq b c \<Longrightarrow> key_eq a c"
  by (cases a; cases b; cases c) (auto split: if_splits)

lemma dict_get_set: "dict_get (dict_set d n v) k = (if key_eq n k then v else dict_get d k)"
proof (induction d)
  case Nil
  show ?case by simp
next
  case (Cons p d)
  obtain k' v' where p: "p = (k', v')" by (cases p)
  show ?case
  proof (cases "key_eq k' n")
    case True
    then have "key_eq n k \<longleftrightarrow> key_eq k' k"
      using key_eq_trans key_eq_sym by blast
    with True show ?thesis by (simp add: p)
  next
    case False
    then have "key_eq n k \<Longrightarrow> \<not> key_eq k' k"
      using key_eq_trans key_eq_sym by blast
    with False Cons.IH show ?thesis by (auto simp: p)
  qed
qed

lemma dict_has_set: "dict_has (dict_set d n v) k = (key_eq n k \<or> dict_has d k)"
proof (induction d)
  case Nil
  show ?case by simp
next
  case (Cons p d)
  obtain k' v' where p: "p = (k', v')" by (cases p)
  show ?case
  proof (cases "key_eq k' n")
    case True
    then have "key_eq n k \<longleftrightarrow> key_eq k' k"
      using key_eq_trans key_eq_sym by blast
    with True show ?thesis by (auto simp: p)
  next
    case False
    with Cons.IH show ?thesis by (auto simp: p)
  qed
qed

lemma keys_distinct_set: "keys_distinct d \<Longrightarrow> keys_distinct (dict_set d n v)"
proof (induction d)
  case Nil
  show ?case by simp
next
  case (Cons p d)
  obtain k' v' where p: "p = (k', v')" by (cases p)
  show ?case
  proof (cases "key_eq k' n")
    case True
    with Cons.prems show ?thesis by (simp add: p)
  next
    case False
    then have "\<not> key_eq n k'" using key_eq_sym by blast
    with False Cons show ?thesis by (simp add: p dict_has_set)
  qed
qed

lemma valid_record_subscript:
  "valid_record c \<Longrightarrow> \<exists>n. py_subscript c ''name'' = Inr n \<and> hashable n \<and> record_name c = Some n"
  by (cases c) (auto simp: valid_record_def record_name_def split: option.splits)

lemma build_dict_spec:
  "\<forall>c\<in>set cs. valid_record c \<Longrightarrow>
   \<exists>m. build_dict cs acc = Inr m
     \<and> (\<forall>k. dict_get m k = (case last_named cs k of Some c \<Rightarrow> c | None \<Rightarrow> dict_get acc k))
     \<and> (\<forall>k. dict_has m k = (last_named cs k \<noteq> None \<or> dict_has acc k))
     \<and> (keys_distinct acc \<longrightarrow> keys_distinct m)"
proof (induction cs arbitrary: acc)
  case Nil
  show ?case by simp
next
  case (Cons c cs)
  from Cons.prems obtain n where n: "py_subscript c ''name'' = Inr n" "hashable n"
      "record_name c = Some n"
    using valid_record_subscript [of c] by auto
  from Cons.prems have "\<forall>c\<in>set cs. valid_record c" by simp
  from Cons.IH [OF this, of "dict_set acc n c"] obtain m
    where m: "build_dict cs (dict_set acc n c) = Inr m"
      and g: "\<forall>k. dict_get m k =
                (case last_named cs k of Some c \<Rightarrow> c | None \<Rightarrow> dict_get (dict_set acc n c) k)"
      and h: "\<forall>k. dict_has m k = (last_named cs k \<noteq> None \<or> dict_has (dict_set acc n c) k)"
      and d: "keys_distinct (dict_set acc n c) \<longrightarrow> keys_distinct m"
    by blast
  have b: "build_dict (c # cs) acc = Inr m" using n m by simp
  have nm: "\<And>k. named c k = key_eq n k" using n(3) by (simp add: named_def)
  have g': "\<forall>k. dict_get m k =
      (case last_named (c # cs) k of Some c \<Rightarrow> c | None \<Rightarrow> dict_get acc k)"
    using g by (simp add: dict_get_set nm split: option.splits)
  have h': "\<forall>k. dict_has m k = (last_named (c # cs) k \<noteq> None \<or> dict_has acc k)"
    using h by (auto simp: dict_has_set nm split: option.splits)
  have d': "keys_distinct acc \<longrightarrow> keys_distinct m"
    using d keys_distinct_set by blast
  from b g' h' d' show ?case by blast
qed

lemma last_named_exists: "last_named cs k \<noteq> None \<longleftrightarrow> (\<exists>c\<in>set cs. named c k)"
  by (induction cs) (auto split: option.splits)

lemma last_named_last:
  "named c k \<Longrightarrow> \<forall>c'\<in>set post. \<not> named c' k \<Longrightarrow> last_named (pre @ c # post) k = Some c"
proof (induction pre)
  case Nil
  then have "last_named post k = None" using last_named_exists [of post k] by blast
  with Nil show ?case by simp
next
  case (Cons p pre)
  then show ?case by simp
qed

lemma update_data_success:
  assumes "get (Get (JStr url) []) = Inr response" and "resp_status response < 400"
    and "resp_json response = Inr (JArr cs)" and "build_dict cs [] = Inr m"
  shows "result (async_update_data get url) = Inr m"
  using assms by (simp add: async_update_data_def async_fetch_data_def raise_for_status_def)

text \<open>
  Claim C2. When the fetch returns a JSON array of container records (dicts with a hashable
  \<^verbatim>\<open>name\<close>), the refresh returns a mapping in which no two entries have equal keys, a key is
  present exactly when some record of the array has that name, and the entry for a name is
  the last record of the array with that name.
\<close>

theorem snapshot_one_entry_per_name:
  assumes "get (Get (JStr url) []) = Inr response" and "resp_status response < 400"
    and "resp_json response = Inr (JArr cs)" and "\<forall>c\<in>set cs. valid_record c"
  shows "\<exists>m. result (async_update_data get url) = Inr m
     \<and> keys_distinct m
     \<and> (\<forall>k. dict_has m k \<longleftrightarrow> (\<exists>c\<in>set cs. named c k))
     \<and> (\<forall>pre c post k. cs = pre @ c # post \<and> named c k \<and> (\<forall>c'\<in>set post. \<not> named c' k) \<longrightarrow>
           dict_get m k = c)"
proof -
  from build_dict_spec [OF assms(4), of "[]"] obtain m
    where m: "build_dict cs [] = Inr m"
      and g: "\<forall>k. dict_get m k = (case last_named cs k of Some c \<Rightarrow> c | None \<Rightarrow> dict_get [] k)"
      and h: "\<forall>k. dict_has m k = (last_named cs k \<noteq> None \<or> dict_has [] k)"
      and d: "keys_distinct [] \<longrightarrow> keys_distinct m"
    by blast
  have r: "result (async_update_data get url) = Inr m"
    using assms(1,2,3) m by (rule update_data_success)
  have kd: "keys_distinct m" using d by simp
  have has: "\<forall>k. dict_has m k \<longleftrightarrow> (\<exists>c\<in>set cs. named c k)"
    using h last_named_exists by simp
  have lw: "\<forall>pre c post k. cs = pre @ c # post \<and> named c k \<and> (\<forall>c'\<in>set post. \<not> named c' k) \<longrightarrow>
           dict_get m k = c"
  proof (intro allI impI)
    fix pre c post k
    assume a: "cs = pre @ c # post \<and> named c k \<and> (\<forall>c'\<in>set post. \<not> named c' k)"
    then have "last_named cs k = Some c" using last_named_last [of c k post pre] by simp
    with g show "dict_get m k = c" by simp
  qed
  from r kd has lw show ?thesis by blast
qed

text \<open>
  An array with two records named \<^verbatim>\<open>web\<close> around one named \<^verbatim>\<open>db\<close>: the mapping has the two
  keys in the order of first occurrence, and \<^verbatim>\<open>web\<close> holds the later record.
\<close>

theorem snapshot_one_entry_per_name_witness:
  "containers_answer [JObj old_web_record, JObj db_record, JObj web_record] (Get (JStr wud_url) []) =
     Inr \<lparr>resp_status = 200,
          resp_json = Inr (JArr [JObj old_web_record, JObj db_record, JObj web_record]),
          resp_text = Inr ''''\<rparr>
   \<and> valid_record (JObj old_web_record) \<and> valid_record (JObj db_record)
   \<and> valid_record (JObj web_record)
   \<and> named (JObj web_record) (JStr ''web'')
   \<and> result (async_update_data
        (containers_answer [JObj old_web_record, JObj db_record, JObj web_record]) wud_url) =
       Inr example_snapshot
   \<and> keys_distinct example_snapshot
   \<and> dict_get example_snapshot (JStr ''web'') = JObj web_record"
proof -
  let ?cs = "[JObj old_web_record, JObj db_record, JObj web_record]"
  let ?resp = "\<lparr>resp_status = 200, resp_json = Inr (JArr ?cs), resp_text = Inr ''''\<rparr>"
  have g: "containers_answer ?cs (Get (JStr wud_url) []) = Inr ?resp"
    by (simp add: containers_answer_def)
  have s: "resp_status ?resp < 400" and j: "resp_json ?resp = Inr (JArr ?cs)" by simp_all
  have v: "\<forall>c\<in>set ?cs. valid_record c"
    by (simp add: valid_record_def record_name_def old_web_record_def db_record_def
        web_record_def)
  have n: "named (JObj web_record) (JStr ''web'')"
    by (simp add: named_def record_name_def web_record_def)
  have e: "result (async_update_data (containers_answer ?cs) wud_url) = Inr example_snapshot"
    by (simp add: async_update_data_def async_fetch_data_def raise_for_status_def
        containers_answer_def example_snapshot_def old_web_record_def db_record_def
        web_record_def)
  from snapshot_one_entry_per_name [of "containers_answer ?cs" wud_url ?resp ?cs] g s j v
  obtain m
    where m: "result (async_update_data (containers_answer ?cs) wud_url) = Inr m"
      and kd: "keys_distinct m"
      and lw: "\<forall>pre c post k. ?cs = pre @ c # post \<and> named c k \<and> (\<forall>c'\<in>set post. \<not> named c' k) \<longrightarrow>
           dict_get m k = c"
    by blast
  from m e have me: "m = example_snapshot" by simp
  have "?cs = [JObj old_web_record, JObj db_record] @ JObj web_record # []" by simp
  with lw n have "dict_get m (JStr ''web'') = JObj web_record" by (metis empty_iff empty_set)
  with g v n e kd me show ?thesis by simp
qed

end
